theory Spec2Isabelle
  imports Main "HOL-Library.AList"
begin

section \<open>JavaScript strings\<close>

text \<open>
  A JavaScript string is a sequence of UTF-16 code units.  This development carries the
  code units U+0000 to U+00FF in \<^typ>\<open>char\<close> (one \<^typ>\<open>char\<close> is one code unit, read as
  Latin-1), so \<^typ>\<open>string\<close> stands for the JavaScript strings over that range.  The
  built-in methods below follow ECMA-262 on that range.
\<close>

definition code :: "char \<Rightarrow> int" where
  "code c = of_char c"

text \<open>
  \<open>WhiteSpace\<close> and \<open>LineTerminator\<close> of ECMA-262 below U+0100: TAB, LF, VT, FF, CR, SP and
  NBSP.  This is the set \<open>String.prototype.trim\<close> strips and the class \<open>\s\<close> of a regular
  expression.
\<close>

definition isWhiteSpace :: "char \<Rightarrow> bool" where
  "isWhiteSpace c = (code c = 9 \<or> code c = 10 \<or> code c = 11 \<or> code c = 12 \<or> code c = 13
     \<or> code c = 32 \<or> code c = 160)"

text \<open>The class \<open>\d\<close> of a regular expression: the ten ASCII digits.\<close>

definition isDigit :: "char \<Rightarrow> bool" where
  "isDigit c = (48 \<le> code c \<and> code c \<le> 57)"

text \<open>The class \<open>[a-z0-9]\<close>.\<close>

definition isLowerAlnum :: "char \<Rightarrow> bool" where
  "isLowerAlnum c = ((97 \<le> code c \<and> code c \<le> 122) \<or> isDigit c)"

text \<open>
  \<open>String.prototype.toLowerCase\<close>: below U+0100 the letters with a lower-case mapping are
  A to Z and U+00C0 to U+00DE without the multiplication sign U+00D7; each maps to the code
  unit 32 above it.
\<close>

definition lowerChar :: "char \<Rightarrow> char" where
  "lowerChar c =
     (if (65 \<le> code c \<and> code c \<le> 90) \<or> (192 \<le> code c \<and> code c \<le> 222 \<and> code c \<noteq> 215)
      then char_of (code c + 32) else c)"

definition toLowerCase :: "string \<Rightarrow> string" where
  "toLowerCase s = map lowerChar s"

text \<open>\<open>String.prototype.trim\<close>: white space is removed from both ends.\<close>

definition trimStart :: "string \<Rightarrow> string" where
  "trimStart s = dropWhile isWhiteSpace s"

definition trimEnd :: "string \<Rightarrow> string" where
  "trimEnd s = rev (dropWhile isWhiteSpace (rev s))"

definition trim :: "string \<Rightarrow> string" where
  "trim s = trimEnd (trimStart s)"

section \<open>The slug generator\<close>

text \<open>
  \<open>.replace(/[^a-z0-9]+/g, "-")\<close>: the global replace scans from the left.  Where the
  code unit at the position is in \<open>[a-z0-9]\<close> there is no match and the unit is copied;
  elsewhere the greedy \<open>+\<close> takes every following unit outside the class, one dash is
  written for the whole match and the scan goes on behind it.
\<close>

function replace_nonalnum :: "string \<Rightarrow> string" where
  "replace_nonalnum [] = []"
| "replace_nonalnum (c # cs) =
     (if isLowerAlnum c then c # replace_nonalnum cs
      else CHR ''-'' # replace_nonalnum (dropWhile (\<lambda>x. \<not> isLowerAlnum x) cs))"
  by pat_completeness auto
termination
  by (relation "measure length") (auto simp: length_dropWhile_le less_Suc_eq_le)

text \<open>
  \<open>.replace(/^-+|-+$/g, "")\<close>: at position 0 the first alternative \<open>^-+\<close> removes the
  leading dashes.  At any position the second alternative \<open>-+$\<close> matches when the units
  from there to the end are all dashes, and removes them; otherwise the unit is copied.
\<close>

fun strip_trailing_dashes :: "string \<Rightarrow> string" where
  "strip_trailing_dashes [] = []"
| "strip_trailing_dashes (c # cs) =
     (if c = CHR ''-'' \<and> list_all (\<lambda>x. x = CHR ''-'') cs then []
      else c # strip_trailing_dashes cs)"

definition strip_edge_dashes :: "string \<Rightarrow> string" where
  "strip_edge_dashes s = strip_trailing_dashes (dropWhile (\<lambda>x. x = CHR ''-'') s)"

definition slugify :: "string \<Rightarrow> string" where
  "slugify v = strip_edge_dashes (replace_nonalnum (trim (toLowerCase v)))"

subsection \<open>The algorithm as the specification words it\<close>

text \<open>
  The maximal runs of a string with respect to a class: each run is a longest stretch of
  neighbours that are all inside or all outside the class.
\<close>

function runs :: "('a \<Rightarrow> bool) \<Rightarrow> 'a list \<Rightarrow> 'a list list" where
  "runs p [] = []"
| "runs p (c # cs) =
     (c # takeWhile (\<lambda>x. p x = p c) cs) # runs p (dropWhile (\<lambda>x. p x = p c) cs)"
  by pat_completeness auto
termination
  by (relation "measure (\<lambda>(p, xs). length xs)") (auto simp: length_dropWhile_le less_Suc_eq_le)

definition dash_for_run :: "string \<Rightarrow> string" where
  "dash_for_run r = (case r of [] \<Rightarrow> [] | c # _ \<Rightarrow> if isLowerAlnum c then r else ''-'')"

definition spec_replace_runs :: "string \<Rightarrow> string" where
  "spec_replace_runs s = concat (map dash_for_run (runs isLowerAlnum s))"

definition spec_strip_dashes :: "string \<Rightarrow> string" where
  "spec_strip_dashes s =
     rev (dropWhile (\<lambda>x. x = CHR ''-'') (rev (dropWhile (\<lambda>x. x = CHR ''-'') s)))"

definition slugify_spec :: "string \<Rightarrow> string" where
  "slugify_spec v = spec_strip_dashes (spec_replace_runs (trim (toLowerCase v)))"

section \<open>Numbers and their decimal form\<close>

text \<open>\<open>Number(s)\<close> on a string of decimal digits, as a capture group of \<open>\d\<close> is.\<close>

definition Number :: "string \<Rightarrow> int" where
  "Number s = foldl (\<lambda>n c. 10 * n + (code c - 48)) 0 s"

definition digitChar :: "int \<Rightarrow> char" where
  "digitChar n = char_of (48 + n)"

text \<open>The decimal digits of an integer that is not negative.\<close>

function showDigits :: "int \<Rightarrow> string" where
  "showDigits n =
     (if n < 10 then [digitChar n] else showDigits (n div 10) @ [digitChar (n mod 10)])"
  by pat_completeness auto
termination
  by (relation "measure nat") auto

declare showDigits.simps [simp del]

text \<open>\<open>Number.prototype.toString\<close> on an integer.\<close>

definition toString :: "int \<Rightarrow> string" where
  "toString n = (if n < 0 then CHR ''-'' # showDigits (- n) else showDigits n)"

text \<open>\<open>String.prototype.padStart\<close> with a filler of one code unit.\<close>

definition padStart :: "nat \<Rightarrow> char \<Rightarrow> string \<Rightarrow> string" where
  "padStart n c s = replicate (n - length s) c @ s"

section \<open>Dates\<close>

text \<open>
  A time value is a number of milliseconds since 1970-01-01T00:00:00Z; \<open>NaN\<close> is
  \<open>None\<close>.  Every time value a \<open>Date\<close> holds is an integer of magnitude at most
  \<open>8.64e15\<close>, which a double carries exactly, so \<^typ>\<open>int\<close> loses nothing.  The
  functions follow the abstract operations of ECMA-262 (\<open>Day\<close>, \<open>DayFromYear\<close>,
  \<open>YearFromTime\<close>, \<open>MonthFromTime\<close>, \<open>DateFromTime\<close>, \<open>MakeDay\<close>, \<open>MakeTime\<close>,
  \<open>MakeDate\<close>, \<open>TimeClip\<close>).
\<close>

definition msPerDay :: int where
  "msPerDay = 86400000"

definition Day :: "int \<Rightarrow> int" where
  "Day t = t div msPerDay"

definition DayFromYear :: "int \<Rightarrow> int" where
  "DayFromYear y =
     365 * (y - 1970) + (y - 1969) div 4 - (y - 1901) div 100 + (y - 1601) div 400"

definition InLeapYear :: "int \<Rightarrow> bool" where
  "InLeapYear y = (y mod 4 = 0 \<and> (y mod 100 \<noteq> 0 \<or> y mod 400 = 0))"

text \<open>
  \<open>YearFromTime\<close> is the largest year whose first day is not after the given day.  It is
  found from an estimate by stepping down while the year starts too late and up while
  the next year has already started.
\<close>

function year_down :: "int \<Rightarrow> int \<Rightarrow> int" where
  "year_down d y = (if d < DayFromYear y then year_down d (y - 1) else y)"
  by pat_completeness auto
termination
proof (relation "measure (\<lambda>(d, y). nat (DayFromYear y - d))")
  show "wf (measure (\<lambda>(d, y). nat (DayFromYear y - d)))"
    by simp
next
  fix d y :: int
  assume less: "d < DayFromYear y"
  have "(y - 1901) div 100 \<le> (y - 1 - 1901 + 100) div 100"
    by (rule zdiv_mono1) simp_all
  also have "\<dots> = (y - 1 - 1901) div 100 + 1"
    by (rule div_add_self2) simp
  finally have b: "(y - 1901) div 100 \<le> (y - 1 - 1901) div 100 + 1" .
  have a: "(y - 1 - 1969) div 4 \<le> (y - 1969) div 4"
    and c: "(y - 1 - 1601) div 400 \<le> (y - 1601) div 400"
    by (rule zdiv_mono1; simp)+
  have "\<And>p p' q q' r r' :: int. p \<le> p' \<Longrightarrow> q' \<le> q + 1 \<Longrightarrow> r \<le> r' \<Longrightarrow>
      365 * (y - 1 - 1970) + p - q + r < 365 * (y - 1970) + p' - q' + r'"
    by simp
  from this [OF a b c] have "DayFromYear (y - 1) < DayFromYear y"
    by (simp only: DayFromYear_def)
  then show "((d, y - 1), (d, y)) \<in> measure (\<lambda>(d, y). nat (DayFromYear y - d))"
    using less by simp
qed

function year_up :: "int \<Rightarrow> int \<Rightarrow> int" where
  "year_up d y = (if DayFromYear (y + 1) \<le> d then year_up d (y + 1) else y)"
  by pat_completeness auto
termination
proof (relation "measure (\<lambda>(d, y). nat (d - DayFromYear y))")
  show "wf (measure (\<lambda>(d, y). nat (d - DayFromYear y)))"
    by simp
next
  fix d y :: int
  assume le: "DayFromYear (y + 1) \<le> d"
  have "(y + 1 - 1901) div 100 \<le> (y - 1901 + 100) div 100"
    by (rule zdiv_mono1) simp_all
  also have "\<dots> = (y - 1901) div 100 + 1"
    by (rule div_add_self2) simp
  finally have b: "(y + 1 - 1901) div 100 \<le> (y - 1901) div 100 + 1" .
  have a: "(y - 1969) div 4 \<le> (y + 1 - 1969) div 4"
    and c: "(y - 1601) div 400 \<le> (y + 1 - 1601) div 400"
    by (rule zdiv_mono1; simp)+
  have "\<And>p p' q q' r r' :: int. p \<le> p' \<Longrightarrow> q' \<le> q + 1 \<Longrightarrow> r \<le> r' \<Longrightarrow>
      365 * (y - 1970) + p - q + r < 365 * (y + 1 - 1970) + p' - q' + r'"
    by simp
  from this [OF a b c] have "DayFromYear y < DayFromYear (y + 1)"
    by (simp only: DayFromYear_def)
  then show "((d, y + 1), (d, y)) \<in> measure (\<lambda>(d, y). nat (d - DayFromYear y))"
    using le by simp
qed

declare year_down.simps [simp del] year_up.simps [simp del]

definition YearFromDay :: "int \<Rightarrow> int" where
  "YearFromDay d = year_up d (year_down d (1970 + (400 * d) div 146097))"

definition YearFromTime :: "int \<Rightarrow> int" where
  "YearFromTime t = YearFromDay (Day t)"

definition DayWithinYear :: "int \<Rightarrow> int" where
  "DayWithinYear t = Day t - DayFromYear (YearFromTime t)"

text \<open>The first day of each month within the year, months counted from 0.\<close>

definition monthStart :: "bool \<Rightarrow> int \<Rightarrow> int" where
  "monthStart leap m =
     (let l = (if leap then 1 else 0) in
      if m \<le> 0 then 0 else if m = 1 then 31 else if m = 2 then 59 + l
      else if m = 3 then 90 + l else if m = 4 then 120 + l else if m = 5 then 151 + l
      else if m = 6 then 181 + l else if m = 7 then 212 + l else if m = 8 then 243 + l
      else if m = 9 then 273 + l else if m = 10 then 304 + l else 334 + l)"

definition monthOfDay :: "bool \<Rightarrow> int \<Rightarrow> int" where
  "monthOfDay leap dwy =
     (if dwy < monthStart leap 1 then 0 else if dwy < monthStart leap 2 then 1
      else if dwy < monthStart leap 3 then 2 else if dwy < monthStart leap 4 then 3
      else if dwy < monthStart leap 5 then 4 else if dwy < monthStart leap 6 then 5
      else if dwy < monthStart leap 7 then 6 else if dwy < monthStart leap 8 then 7
      else if dwy < monthStart leap 9 then 8 else if dwy < monthStart leap 10 then 9
      else if dwy < monthStart leap 11 then 10 else 11)"

definition MonthFromTime :: "int \<Rightarrow> int" where
  "MonthFromTime t = monthOfDay (InLeapYear (YearFromTime t)) (DayWithinYear t)"

definition DateFromTime :: "int \<Rightarrow> int" where
  "DateFromTime t =
     DayWithinYear t - monthStart (InLeapYear (YearFromTime t)) (MonthFromTime t) + 1"

definition DaysInMonth :: "int \<Rightarrow> int \<Rightarrow> int" where
  "DaysInMonth y m =
     (if m = 1 then (if InLeapYear y then 29 else 28)
      else if m = 3 \<or> m = 5 \<or> m = 8 \<or> m = 10 then 30 else 31)"

definition MakeDay :: "int \<Rightarrow> int \<Rightarrow> int \<Rightarrow> int" where
  "MakeDay year month dt =
     (let ym = year + month div 12; mn = month mod 12 in
      DayFromYear ym + monthStart (InLeapYear ym) mn + dt - 1)"

definition MakeTime :: "int \<Rightarrow> int \<Rightarrow> int \<Rightarrow> int \<Rightarrow> int" where
  "MakeTime h m s ms = h * 3600000 + m * 60000 + s * 1000 + ms"

definition MakeDate :: "int \<Rightarrow> int \<Rightarrow> int" where
  "MakeDate day tm = day * msPerDay + tm"

definition TimeClip :: "int \<Rightarrow> int option" where
  "TimeClip t = (if \<bar>t\<bar> > 8640000000000000 then None else Some t)"

definition HourFromTime :: "int \<Rightarrow> int" where
  "HourFromTime t = (t div 3600000) mod 24"

definition MinFromTime :: "int \<Rightarrow> int" where
  "MinFromTime t = (t div 60000) mod 60"

definition SecFromTime :: "int \<Rightarrow> int" where
  "SecFromTime t = (t div 1000) mod 60"

definition msFromTime :: "int \<Rightarrow> int" where
  "msFromTime t = t mod 1000"

subsection \<open>\<open>Date.prototype.toISOString\<close>\<close>

definition pad :: "nat \<Rightarrow> int \<Rightarrow> string" where
  "pad n v = padStart n (CHR ''0'') (toString v)"

text \<open>
  A year from 0 to 9999 is written with four digits.  Any other year is written in the
  expanded form: a sign and six digits.
\<close>

definition isoYear :: "int \<Rightarrow> string" where
  "isoYear y =
     (if 0 \<le> y \<and> y \<le> 9999 then pad 4 y
      else (if y < 0 then CHR ''-'' else CHR ''+'') # pad 6 \<bar>y\<bar>)"

definition toISOString :: "int \<Rightarrow> string" where
  "toISOString t =
     isoYear (YearFromTime t) @ ''-'' @ pad 2 (MonthFromTime t + 1) @ ''-'' @
     pad 2 (DateFromTime t) @ ''T'' @ pad 2 (HourFromTime t) @ '':'' @
     pad 2 (MinFromTime t) @ '':'' @ pad 2 (SecFromTime t) @ ''.'' @
     pad 3 (msFromTime t) @ ''Z''"

text \<open>\<open>s.slice(0, n)\<close> for a count \<open>n\<close> that is not negative.\<close>

definition slice0 :: "nat \<Rightarrow> string \<Rightarrow> string" where
  "slice0 n s = take n s"

subsection \<open>\<open>Date.parse\<close>\<close>

text \<open>
  The Date Time String Format of ECMA-262: \<open>YYYY\<close>, \<open>YYYY-MM\<close> or \<open>YYYY-MM-DD\<close>, the year
  possibly expanded to a sign and six digits, alone (a date-only form, read as UTC) or
  followed by \<open>THH:mm\<close>, \<open>THH:mm:ss\<close> or \<open>THH:mm:ss.sss\<close> and possibly an offset \<open>Z\<close> or
  \<open>+HH:mm\<close> / \<open>-HH:mm\<close> (a date-time form, read as local time when it has no offset).
\<close>

definition fixedNumber :: "nat \<Rightarrow> string \<Rightarrow> (int \<times> string) option" where
  "fixedNumber n s =
     (if n \<le> length s \<and> list_all isDigit (take n s) then Some (Number (take n s), drop n s)
      else None)"

definition isoField :: "char \<Rightarrow> nat \<Rightarrow> string \<Rightarrow> (int \<times> string) option" where
  "isoField sep n s = (case s of [] \<Rightarrow> None | c # r \<Rightarrow> if c = sep then fixedNumber n r else None)"

definition isoYearField :: "string \<Rightarrow> (int \<times> string) option" where
  "isoYearField s =
     (case s of
        [] \<Rightarrow> None
      | c # r \<Rightarrow>
          if c = CHR ''+'' \<or> c = CHR ''-'' then
            (case fixedNumber 6 r of
               None \<Rightarrow> None
             | Some (y, r') \<Rightarrow>
                 if c = CHR ''-'' \<and> y = 0 then None
                 else Some (if c = CHR ''-'' then - y else y, r'))
          else fixedNumber 4 s)"

definition isoDate :: "string \<Rightarrow> (int \<times> int \<times> int \<times> string) option" where
  "isoDate s =
     (case isoYearField s of
        None \<Rightarrow> None
      | Some (y, r1) \<Rightarrow>
          (case isoField (CHR ''-'') 2 r1 of
             None \<Rightarrow> Some (y, 1, 1, r1)
           | Some (m, r2) \<Rightarrow>
               (case isoField (CHR ''-'') 2 r2 of
                  None \<Rightarrow> Some (y, m, 1, r2)
                | Some (d, r3) \<Rightarrow> Some (y, m, d, r3))))"

definition isoTime :: "string \<Rightarrow> (int \<times> int \<times> int \<times> int \<times> string) option" where
  "isoTime s =
     (case fixedNumber 2 s of
        None \<Rightarrow> None
      | Some (h, r1) \<Rightarrow>
          (case isoField (CHR '':'') 2 r1 of
             None \<Rightarrow> None
           | Some (mi, r2) \<Rightarrow>
               (case isoField (CHR '':'') 2 r2 of
                  None \<Rightarrow> Some (h, mi, 0, 0, r2)
                | Some (sec, r3) \<Rightarrow>
                    (case isoField (CHR ''.'') 3 r3 of
                       None \<Rightarrow> Some (h, mi, sec, 0, r3)
                     | Some (ms, r4) \<Rightarrow> Some (h, mi, sec, ms, r4)))))"

text \<open>What stands behind the time: nothing (local time) or an offset, in minutes.\<close>

datatype zone = LocalTime | Offset int

definition isoOffset :: "string \<Rightarrow> zone option" where
  "isoOffset s =
     (case s of
        [] \<Rightarrow> Some LocalTime
      | c # r \<Rightarrow>
          if c = CHR ''Z'' then (if r = [] then Some (Offset 0) else None)
          else if c = CHR ''+'' \<or> c = CHR ''-'' then
            (case fixedNumber 2 r of
               None \<Rightarrow> None
             | Some (h, r1) \<Rightarrow>
                 (case isoField (CHR '':'') 2 r1 of
                    None \<Rightarrow> None
                  | Some (m, r2) \<Rightarrow>
                      if r2 = [] \<and> h \<le> 23 \<and> m \<le> 59
                      then Some (Offset ((if c = CHR ''-'' then - 1 else 1) * (h * 60 + m)))
                      else None))
          else None)"

text \<open>
  The time value of a string in the format, \<open>None\<close> for a string outside it.  A field out
  of its range (a month above 12, a day the month does not have, an hour above 24, a
  minute or second above 59) puts the string outside the format.  The argument \<open>utc\<close> is
  the conversion from local time to UTC.
\<close>

definition parseISO :: "(int \<Rightarrow> int) \<Rightarrow> string \<Rightarrow> int option" where
  "parseISO utc s =
     (case isoDate s of
        None \<Rightarrow> None
      | Some (y, m, d, r) \<Rightarrow>
          if \<not> (1 \<le> m \<and> m \<le> 12 \<and> 1 \<le> d \<and> d \<le> DaysInMonth y (m - 1)) then None
          else
            (case r of
               [] \<Rightarrow> Some (MakeDate (MakeDay y (m - 1) d) 0)
             | c # r1 \<Rightarrow>
                 if c \<noteq> CHR ''T'' then None
                 else
                   (case isoTime r1 of
                      None \<Rightarrow> None
                    | Some (h, mi, sec, ms, r2) \<Rightarrow>
                        if \<not> (h \<le> 24 \<and> mi \<le> 59 \<and> sec \<le> 59
                              \<and> (h < 24 \<or> (mi = 0 \<and> sec = 0 \<and> ms = 0))) then None
                        else
                          (case isoOffset r2 of
                             None \<Rightarrow> None
                           | Some LocalTime \<Rightarrow>
                               Some (utc (MakeDate (MakeDay y (m - 1) d) (MakeTime h mi sec ms)))
                           | Some (Offset off) \<Rightarrow>
                               Some (MakeDate (MakeDay y (m - 1) d) (MakeTime h mi sec ms)
                                     - off * 60000)))))"

text \<open>
  What ECMA-262 leaves to the engine: the conversion from local time to UTC, which is the
  time zone of the process, and the result of \<open>Date.parse\<close> on a string outside the
  format, where the engine may fall back to formats of its own.
\<close>

record runtime =
  utcOfLocal :: "int \<Rightarrow> int"
  legacyParse :: "string \<Rightarrow> int option"

definition Date_parse :: "runtime \<Rightarrow> string \<Rightarrow> int option" where
  "Date_parse rt s =
     (case parseISO (utcOfLocal rt) s of Some t \<Rightarrow> Some t | None \<Rightarrow> legacyParse rt s)"

text \<open>\<open>new Date(s)\<close> for a string \<open>s\<close>: the parsed time value, clipped.\<close>

definition Date_new :: "runtime \<Rightarrow> string \<Rightarrow> int option" where
  "Date_new rt s = (case Date_parse rt s of None \<Rightarrow> None | Some t \<Rightarrow> TimeClip t)"

text \<open>
  A process at a fixed offset from UTC, in minutes east, on an engine whose fallback
  reads a year of four digits, a month and a day, joined by dashes and the month or the
  day written with one digit, as a local time at midnight.  Node's engine V8 reads such
  strings so; every other string outside the format is left unrecognised here.
\<close>

fun splitOn :: "char \<Rightarrow> string \<Rightarrow> string list" where
  "splitOn sep [] = [[]]"
| "splitOn sep (c # cs) =
     (if c = sep then [] # splitOn sep cs
      else (case splitOn sep cs of [] \<Rightarrow> [[c]] | p # ps \<Rightarrow> (c # p) # ps))"

definition isNumeral :: "string \<Rightarrow> bool" where
  "isNumeral s = (s \<noteq> [] \<and> list_all isDigit s)"

definition legacyYMD :: "(int \<Rightarrow> int) \<Rightarrow> string \<Rightarrow> int option" where
  "legacyYMD utc s =
     (case splitOn (CHR ''-'') s of
        [ys, ms, ds] \<Rightarrow>
          if isNumeral ys \<and> isNumeral ms \<and> isNumeral ds \<and> length ys = 4
             \<and> length ms \<le> 2 \<and> length ds \<le> 2 \<and> (length ms = 1 \<or> length ds = 1)
             \<and> 1 \<le> Number ms \<and> Number ms \<le> 12 \<and> 1 \<le> Number ds \<and> Number ds \<le> 31
          then Some (utc (MakeDate (MakeDay (Number ys) (Number ms - 1) (Number ds)) 0))
          else None
      | _ \<Rightarrow> None)"

definition fixedOffsetRuntime :: "int \<Rightarrow> runtime" where
  "fixedOffsetRuntime minutesEast =
     \<lparr> utcOfLocal = (\<lambda>t. t - minutesEast * 60000),
       legacyParse = legacyYMD (\<lambda>t. t - minutesEast * 60000) \<rparr>"

section \<open>Failures\<close>

text \<open>
  The hooks throw \<open>Error\<close> objects that differ in their message only.  The kinds below
  name the messages: \<open>MissingField f\<close> is \<open>Field "f" is required ...\<close>,
  \<open>InvalidArrayField f\<close> is \<open>Field "f" is required and must be a non-empty array of
  strings.\<close>, \<open>InvalidDate\<close> is \<open>Invalid "date" value. ...\<close>, \<open>InvalidTime\<close> is either of
  the two \<open>Invalid "time" value. ...\<close> messages, \<open>InvalidEmail\<close> is \<open>Field "email" must be a
  valid email address.\<close> and \<open>DanglingReference f\<close> is \<open>Cannot create booking: referenced
  event does not exist.\<close>  \<open>DuplicateKey f\<close> is the rejection by the unique index on \<open>f\<close>.
\<close>

datatype error =
    MissingField string
  | InvalidArrayField string
  | InvalidDate
  | InvalidTime
  | InvalidEmail
  | DanglingReference string
  | DuplicateKey string

section \<open>The Event model\<close>

text \<open>
  An Event document as the hook reads it.  A field that holds no string (\<open>undefined\<close> or
  \<open>null\<close>) is \<open>None\<close>; so is an array field that holds no array, and an element of an
  array that is no string.  \<open>modifiedPaths\<close> lists the paths set since the document was
  created or loaded, which \<open>isModified\<close> reads.
\<close>

record event_doc =
  title :: "string option"
  slug :: "string option"
  description :: "string option"
  overview :: "string option"
  image' :: "string option"
  venue :: "string option"
  location :: "string option"
  date :: "string option"
  time :: "string option"
  mode :: "string option"
  audience :: "string option"
  agenda :: "string option list option"
  organizer :: "string option"
  tags :: "string option list option"
  modifiedPaths :: "string list"

definition isModified :: "string \<Rightarrow> event_doc \<Rightarrow> bool" where
  "isModified path d = List.member (modifiedPaths d) path"

definition assertNonEmptyString :: "string option \<Rightarrow> string \<Rightarrow> error + unit" where
  "assertNonEmptyString v fieldName =
     (case v of
        None \<Rightarrow> Inl (MissingField fieldName)
      | Some s \<Rightarrow> if length (trim s) = 0 then Inl (MissingField fieldName) else Inr ())"

definition blankElement :: "string option \<Rightarrow> bool" where
  "blankElement v = (case v of None \<Rightarrow> True | Some s \<Rightarrow> length (trim s) = 0)"

definition assertNonEmptyStringArray :: "string option list option \<Rightarrow> string \<Rightarrow> error + unit" where
  "assertNonEmptyStringArray v fieldName =
     (case v of
        None \<Rightarrow> Inl (InvalidArrayField fieldName)
      | Some xs \<Rightarrow>
          if length xs = 0 \<or> list_ex blankElement xs then Inl (InvalidArrayField fieldName)
          else Inr ())"

text \<open>Statements that may throw, run in order: the first failure is the outcome.\<close>

fun firstFailure :: "(error + unit) list \<Rightarrow> error + unit" where
  "firstFailure [] = Inr ()"
| "firstFailure (Inl e # rs) = Inl e"
| "firstFailure (Inr u # rs) = firstFailure rs"

definition assertRequired :: "event_doc \<Rightarrow> error + unit" where
  "assertRequired d =
     firstFailure
       [assertNonEmptyString (title d) ''title'',
        assertNonEmptyString (description d) ''description'',
        assertNonEmptyString (overview d) ''overview'',
        assertNonEmptyString (image' d) ''image'',
        assertNonEmptyString (venue d) ''venue'',
        assertNonEmptyString (location d) ''location'',
        assertNonEmptyString (date d) ''date'',
        assertNonEmptyString (time d) ''time'',
        assertNonEmptyString (mode d) ''mode'',
        assertNonEmptyString (audience d) ''audience'',
        assertNonEmptyString (organizer d) ''organizer'',
        assertNonEmptyStringArray (agenda d) ''agenda'',
        assertNonEmptyStringArray (tags d) ''tags'']"

text \<open>
  \<open>time.match(/^(\d{1,2}):(\d{2})$/)\<close>: the whole string is one or two digits, a colon and
  two digits; the result holds the two groups.
\<close>

fun timeMatch :: "string \<Rightarrow> (string \<times> string) option" where
  "timeMatch [h1, c, m1, m2] =
     (if isDigit h1 \<and> c = CHR '':'' \<and> isDigit m1 \<and> isDigit m2 then Some ([h1], [m1, m2])
      else None)"
| "timeMatch [h1, h2, c, m1, m2] =
     (if isDigit h1 \<and> isDigit h2 \<and> c = CHR '':'' \<and> isDigit m1 \<and> isDigit m2
      then Some ([h1, h2], [m1, m2]) else None)"
| "timeMatch s = None"

text \<open>The string in a field that \<open>assertNonEmptyString\<close> has accepted.\<close>

definition str :: "string option \<Rightarrow> string" where
  "str v = (case v of None \<Rightarrow> [] | Some s \<Rightarrow> s)"

text \<open>\<open>!this.slug\<close>: the slug is \<open>undefined\<close>, \<open>null\<close> or the empty string.\<close>

definition noSlug :: "string option \<Rightarrow> bool" where
  "noSlug v = (case v of None \<Rightarrow> True | Some s \<Rightarrow> s = [])"

text \<open>
  The pre-save hook.  It works on the document in place, so the outcome is the failure
  thrown, if any, together with the document as the hook leaves it.
\<close>

definition preSave :: "runtime \<Rightarrow> event_doc \<Rightarrow> error option \<times> event_doc" where
  "preSave rt d =
     (case assertRequired d of
        Inl e \<Rightarrow> (Some e, d)
      | Inr u \<Rightarrow>
          (case Date_new rt (str (date d)) of
             None \<Rightarrow> (Some InvalidDate, d)
           | Some parsedDate \<Rightarrow>
               let d1 = d\<lparr>date := Some (slice0 10 (toISOString parsedDate))\<rparr> in
               (case timeMatch (trim (str (time d1))) of
                  None \<Rightarrow> (Some InvalidTime, d1)
                | Some (g1, g2) \<Rightarrow>
                    let hours = Number g1; minutes = Number g2 in
                    if hours < 0 \<or> hours > 23 \<or> minutes < 0 \<or> minutes > 59
                    then (Some InvalidTime, d1)
                    else
                      let d2 = d1\<lparr>time := Some (padStart 2 (CHR ''0'') (toString hours) @ '':'' @
                                                padStart 2 (CHR ''0'') (toString minutes))\<rparr>
                      in if isModified ''title'' d2 \<or> noSlug (slug d2)
                         then (None, d2\<lparr>slug := Some (slugify (str (title d2)))\<rparr>)
                         else (None, d2))))"

subsection \<open>Documents and the collection\<close>

text \<open>
  The operations of the library (Mongoose) around the hook, as far as the hook depends
  on them: building a document runs the setters the schema declares, a path that is set
  is marked as modified, \<open>save\<close> runs the pre-save hook before anything is written and
  writes nothing when the hook throws, and a unique index rejects a second document
  with the same value.

  \<open>new Event(attributes)\<close>: the setters of the schema trim the nine fields declared with
  \<open>trim: true\<close>, and every path given is marked as modified.
\<close>

definition present :: "string \<Rightarrow> 'a option \<Rightarrow> string list" where
  "present path v = (case v of None \<Rightarrow> [] | Some x \<Rightarrow> [path])"

definition newEvent :: "event_doc \<Rightarrow> event_doc" where
  "newEvent a =
     a\<lparr> title := map_option trim (title a),
        description := map_option trim (description a),
        overview := map_option trim (overview a),
        image' := map_option trim (image' a),
        venue := map_option trim (venue a),
        location := map_option trim (location a),
        mode := map_option trim (mode a),
        audience := map_option trim (audience a),
        organizer := map_option trim (organizer a),
        modifiedPaths :=
          present ''title'' (title a) @ present ''slug'' (slug a) @
          present ''description'' (description a) @ present ''overview'' (overview a) @
          present ''image'' (image' a) @ present ''venue'' (venue a) @
          present ''location'' (location a) @ present ''date'' (date a) @
          present ''time'' (time a) @ present ''mode'' (mode a) @
          present ''audience'' (audience a) @ present ''agenda'' (agenda a) @
          present ''organizer'' (organizer a) @ present ''tags'' (tags a) \<rparr>"

text \<open>\<open>doc.description = v\<close>: the value is trimmed; the path is marked when the value changes.\<close>

definition setDescription :: "string \<Rightarrow> event_doc \<Rightarrow> event_doc" where
  "setDescription v d =
     (if description d = Some (trim v) then d
      else d\<lparr>description := Some (trim v),
             modifiedPaths := ''description'' # modifiedPaths d\<rparr>)"

text \<open>
  The Event collection: the persisted documents by identifier.  \<open>doc.save()\<close> runs the
  hook; when the hook throws nothing is written.  Otherwise the unique index on \<open>slug\<close>
  rejects the write if another document holds the same slug, and else the document is
  written and its modification marks are cleared.
\<close>

type_synonym event_collection = "(nat \<times> event_doc) list"

definition slugTaken :: "event_collection \<Rightarrow> nat \<Rightarrow> string option \<Rightarrow> bool" where
  "slugTaken coll k s = list_ex (\<lambda>(k', e). k' \<noteq> k \<and> slug e = s) coll"

definition saveEvent ::
  "runtime \<Rightarrow> event_collection \<Rightarrow> nat \<Rightarrow> event_doc \<Rightarrow> (error + unit) \<times> event_doc \<times> event_collection"
where
  "saveEvent rt coll k d =
     (case preSave rt d of
        (Some e, d') \<Rightarrow> (Inl e, d', coll)
      | (None, d') \<Rightarrow>
          if slugTaken coll k (slug d') then (Inl (DuplicateKey ''slug''), d', coll)
          else (Inr (), d'\<lparr>modifiedPaths := []\<rparr>,
                AList.update k (d'\<lparr>modifiedPaths := []\<rparr>) coll))"

definition Event_exists :: "event_collection \<Rightarrow> nat \<Rightarrow> bool" where
  "Event_exists coll k = (map_of coll k \<noteq> None)"

section \<open>The Booking model\<close>

subsection \<open>Regular expressions, matched against a whole string\<close>

datatype rx =
    NoMatch
  | EmptyStr
  | OneOf "char \<Rightarrow> bool"
  | Either rx rx
  | Seq rx rx
  | Repeat rx

fun nullable :: "rx \<Rightarrow> bool" where
  "nullable NoMatch = False"
| "nullable EmptyStr = True"
| "nullable (OneOf p) = False"
| "nullable (Either r s) = (nullable r \<or> nullable s)"
| "nullable (Seq r s) = (nullable r \<and> nullable s)"
| "nullable (Repeat r) = True"

fun deriv :: "char \<Rightarrow> rx \<Rightarrow> rx" where
  "deriv c NoMatch = NoMatch"
| "deriv c EmptyStr = NoMatch"
| "deriv c (OneOf p) = (if p c then EmptyStr else NoMatch)"
| "deriv c (Either r s) = Either (deriv c r) (deriv c s)"
| "deriv c (Seq r s) =
     (if nullable r then Either (Seq (deriv c r) s) (deriv c s) else Seq (deriv c r) s)"
| "deriv c (Repeat r) = Seq (deriv c r) (Repeat r)"

definition rx_test :: "rx \<Rightarrow> string \<Rightarrow> bool" where
  "rx_test r s = nullable (foldl (\<lambda>q c. deriv c q) r s)"

definition OneOrMore :: "rx \<Rightarrow> rx" where
  "OneOrMore r = Seq r (Repeat r)"

text \<open>\<open>/^[^\s@]+@[^\s@]+\.[^\s@]+$/\<close>\<close>

definition notSpaceAt :: "char \<Rightarrow> bool" where
  "notSpaceAt c = (\<not> isWhiteSpace c \<and> c \<noteq> CHR ''@'')"

definition emailRegex :: rx where
  "emailRegex =
     Seq (OneOrMore (OneOf notSpaceAt))
       (Seq (OneOf (\<lambda>c. c = CHR ''@''))
          (Seq (OneOrMore (OneOf notSpaceAt))
             (Seq (OneOf (\<lambda>c. c = CHR ''.'')) (OneOrMore (OneOf notSpaceAt)))))"

definition isValidEmail :: "string \<Rightarrow> bool" where
  "isValidEmail v = rx_test emailRegex v"

subsection \<open>Documents and the hook\<close>

record booking_doc =
  eventId :: "nat option"
  email :: "string option"

text \<open>
  \<open>new Booking({ eventId, email })\<close>: the setters of the schema (\<open>lowercase: true\<close>,
  \<open>trim: true\<close>) act on the email when it is set, before any hook runs.  The two setters
  commute, so the order in which the library runs them does not matter.
\<close>

definition newBooking :: "nat option \<Rightarrow> string option \<Rightarrow> booking_doc" where
  "newBooking eid em = \<lparr> eventId = eid, email = map_option (\<lambda>v. trim (toLowerCase v)) em \<rparr>"

text \<open>
  The pre-save hook.  It changes nothing in the document; the outcome is the failure
  thrown, if any, together with the \<open>Event.exists\<close> queries it has sent.
\<close>

definition bookingPreSave :: "event_collection \<Rightarrow> booking_doc \<Rightarrow> error option \<times> nat list" where
  "bookingPreSave coll b =
     (case eventId b of
        None \<Rightarrow> (Some (MissingField ''eventId''), [])
      | Some eid \<Rightarrow>
          (case email b of
             None \<Rightarrow> (Some (MissingField ''email''), [])
           | Some em \<Rightarrow>
               if length (trim em) = 0 then (Some (MissingField ''email''), [])
               else if \<not> isValidEmail em then (Some InvalidEmail, [])
               else if \<not> Event_exists coll eid then (Some (DanglingReference ''eventId''), [eid])
               else (None, [eid])))"

text \<open>\<open>booking.save()\<close>: the document is appended to the Booking collection when the hook passes.\<close>

definition saveBooking ::
  "event_collection \<Rightarrow> booking_doc list \<Rightarrow> booking_doc \<Rightarrow>
     (error + unit) \<times> nat list \<times> booking_doc list"
where
  "saveBooking coll bs b =
     (case bookingPreSave coll b of
        (Some e, qs) \<Rightarrow> (Inl e, qs, bs)
      | (None, qs) \<Rightarrow> (Inr (), qs, bs @ [b]))"

section \<open>The stored formats of the specification\<close>

text \<open>The pattern \<open>^\d{4}-\d{2}-\d{2}$\<close> for a stored date.\<close>

fun matchesDatePattern :: "string \<Rightarrow> bool" where
  "matchesDatePattern [y1, y2, y3, y4, s1, m1, m2, s2, d1, d2] =
     (isDigit y1 \<and> isDigit y2 \<and> isDigit y3 \<and> isDigit y4 \<and> s1 = CHR ''-'' \<and>
      isDigit m1 \<and> isDigit m2 \<and> s2 = CHR ''-'' \<and> isDigit d1 \<and> isDigit d2)"
| "matchesDatePattern s = False"

text \<open>
  The pattern \<open>^\d{2}:\d{2}$\<close> for a stored time, with the hour at most 23 and the minute
  at most 59.
\<close>

fun matchesTimePattern :: "string \<Rightarrow> bool" where
  "matchesTimePattern [h1, h2, c, m1, m2] =
     (isDigit h1 \<and> isDigit h2 \<and> c = CHR '':'' \<and> isDigit m1 \<and> isDigit m2 \<and>
      Number [h1, h2] \<le> 23 \<and> Number [m1, m2] \<le> 59)"
| "matchesTimePattern s = False"

section \<open>Sample data\<close>

text \<open>The attributes of a well-formed Event, as a caller would pass them to \<open>new Event\<close>.\<close>

definition sampleEvent :: event_doc where
  "sampleEvent =
     \<lparr> title = Some ''My Event'', slug = None, description = Some ''A meetup'',
       overview = Some ''Talks and workshops'', image' = Some ''/images/event.png'',
       venue = Some ''Main hall'', location = Some ''Berlin'', date = Some ''2025-01-05'',
       time = Some ''9:05'', mode = Some ''offline'', audience = Some ''Developers'',
       agenda = Some [Some ''Opening'', Some ''Keynote''], organizer = Some ''The team'',
       tags = Some [Some ''tech''], modifiedPaths = [] \<rparr>"

section \<open>Properties of the slug generator\<close>

lemma strip_trailing_dashes_rev:
  "strip_trailing_dashes s = rev (dropWhile (\<lambda>x. x = CHR ''-'') (rev s))"
  by (induction s) (auto simp: dropWhile_append list_all_iff)

lemma replace_nonalnum_copy:
  "list_all isLowerAlnum r \<Longrightarrow> replace_nonalnum (r @ s) = r @ replace_nonalnum s"
  by (induction r) auto

lemma replace_nonalnum_runs: "replace_nonalnum s = spec_replace_runs s"
  unfolding spec_replace_runs_def
proof (induction isLowerAlnum s rule: runs.induct)
  case 1
  show ?case by simp
next
  case (2 c cs)
  let ?same = "\<lambda>x. isLowerAlnum x = isLowerAlnum c"
  show ?case
  proof (cases "isLowerAlnum c")
    case True
    have "list_all isLowerAlnum (takeWhile ?same cs)"
      using True by (simp add: list_all_iff) (metis set_takeWhileD)
    then have "replace_nonalnum (takeWhile ?same cs @ dropWhile ?same cs)
        = takeWhile ?same cs @ replace_nonalnum (dropWhile ?same cs)"
      by (rule replace_nonalnum_copy)
    then show ?thesis
      using True 2 by (simp add: dash_for_run_def)
  next
    case False
    then have "?same = (\<lambda>x. \<not> isLowerAlnum x)"
      by auto
    then show ?thesis
      using False 2 by (simp add: dash_for_run_def)
  qed
qed

text \<open>
  Claim C8.  For every string, \<open>slugify\<close> returns what the specification describes: the
  input in lower case, trimmed, every maximal run of characters outside \<open>[a-z0-9]\<close>
  replaced by one dash, and the leading and trailing dashes stripped.  It is a total
  function, and \<open>slugify("Annual Tech Summit 2025!")\<close> is \<open>"annual-tech-summit-2025"\<close>.
\<close>

theorem slugify_meets_spec:
  "slugify v = slugify_spec v \<and>
   slugify ''Annual Tech Summit 2025!'' = ''annual-tech-summit-2025''"
proof
  show "slugify v = slugify_spec v"
    by (simp add: slugify_def slugify_spec_def strip_edge_dashes_def spec_strip_dashes_def
        strip_trailing_dashes_rev replace_nonalnum_runs)
  show "slugify ''Annual Tech Summit 2025!'' = ''annual-tech-summit-2025''"
    by code_simp
qed

theorem slugify_meets_spec_witness:
  "slugify ''  --Hello,   World--  '' = slugify_spec ''  --Hello,   World--  '' \<and>
   slugify_spec ''  --Hello,   World--  '' = ''hello-world''"
proof -
  have a: "slugify ''  --Hello,   World--  '' = slugify_spec ''  --Hello,   World--  ''"
    using slugify_meets_spec [of "''  --Hello,   World--  ''"] by (rule conjunct1)
  have b: "slugify_spec ''  --Hello,   World--  '' = ''hello-world''"
    by code_simp
  show ?thesis
    using a b by (rule conjI)
qed

section \<open>Properties of numbers and their decimal form\<close>

lemma digit_roundtrip: "isDigit c \<Longrightarrow> digitChar (code c - 48) = c"
  by (simp add: digitChar_def code_def)

lemma Number_one: "Number [a] = code a - 48"
  by (simp add: Number_def)

lemma Number_two: "Number [a, b] = 10 * (code a - 48) + (code b - 48)"
  by (simp add: Number_def)

lemma showDigits_one: "n < 10 \<Longrightarrow> showDigits n = [digitChar n]"
  by (simp add: showDigits.simps)

lemma showDigits_two:
  "10 \<le> n \<Longrightarrow> n < 100 \<Longrightarrow> showDigits n = [digitChar (n div 10), digitChar (n mod 10)]"
  by (subst showDigits.simps) (simp add: showDigits_one)

lemma zero_char: "code a = 48 \<Longrightarrow> a = CHR ''0''"
proof -
  assume "code a = 48"
  then have "char_of (code a) = (char_of (48::int) :: char)"
    by simp
  moreover have "(char_of (48::int) :: char) = CHR ''0''"
    by code_simp
  ultimately show ?thesis
    by (simp add: code_def)
qed

lemma pad2_one:
  assumes "isDigit a"
  shows "padStart 2 (CHR ''0'') (toString (Number [a])) = [CHR ''0'', a]"
proof -
  have r: "0 \<le> code a - 48" "code a - 48 < 10"
    using assms by (auto simp: isDigit_def)
  then have "toString (Number [a]) = [a]"
    using digit_roundtrip [OF assms] by (simp add: Number_one toString_def showDigits_one)
  then show ?thesis
    by (simp add: padStart_def)
qed

lemma pad2_two:
  assumes "isDigit a" "isDigit b"
  shows "padStart 2 (CHR ''0'') (toString (Number [a, b])) = [a, b]"
proof (cases "code a = 48")
  case True
  then have "Number [a, b] = Number [b]"
    by (simp add: Number_one Number_two)
  then show ?thesis
    using pad2_one [OF assms(2)] zero_char [OF True] by simp
next
  case False
  define x where "x = code a - 48"
  define y where "y = code b - 48"
  have x: "1 \<le> x" "x < 10" and y: "0 \<le> y" "y < 10"
    using assms False by (auto simp: isDigit_def x_def y_def)
  have n: "Number [a, b] = 10 * x + y"
    by (simp add: Number_two x_def y_def)
  have "showDigits (10 * x + y) = [digitChar x, digitChar y]"
    using x y by (subst showDigits_two) auto
  moreover have "digitChar x = a" "digitChar y = b"
    using digit_roundtrip assms by (auto simp: x_def y_def)
  moreover have "0 \<le> 10 * x + y"
    using x y by simp
  ultimately have "toString (Number [a, b]) = [a, b]"
    unfolding n toString_def by simp
  then show ?thesis
    by (simp add: padStart_def)
qed

lemma Number_nonneg: "list_all isDigit s \<Longrightarrow> 0 \<le> Number s"
proof -
  have "list_all isDigit s \<Longrightarrow> 0 \<le> n \<Longrightarrow> 0 \<le> foldl (\<lambda>n c. 10 * n + (code c - 48)) n s" for n
    by (induction s arbitrary: n) (auto simp: isDigit_def)
  then show "list_all isDigit s \<Longrightarrow> 0 \<le> Number s"
    by (simp add: Number_def)
qed

lemma hour_minute_shape:
  assumes "length hs = 1 \<or> length hs = 2" "list_all isDigit hs" "length ms = 2" "list_all isDigit ms"
  shows "timeMatch (hs @ '':'' @ ms) = Some (hs, ms)"
    and "padStart 2 (CHR ''0'') (toString (Number hs)) = (if length hs = 1 then CHR ''0'' # hs else hs)"
    and "padStart 2 (CHR ''0'') (toString (Number ms)) = ms"
proof -
  obtain m1 m2 where ms: "ms = [m1, m2]"
    using assms(3) by (metis (no_types) length_0_conv length_Suc_conv numeral_2_eq_2)
  show "padStart 2 (CHR ''0'') (toString (Number ms)) = ms"
    using assms(4) unfolding ms by (simp add: pad2_two)
  from assms(1) consider h where "hs = [h]" | h1 h2 where "hs = [h1, h2]"
    by (metis (no_types) length_0_conv length_Suc_conv numeral_2_eq_2 One_nat_def)
  then show "timeMatch (hs @ '':'' @ ms) = Some (hs, ms)"
    using assms by cases (auto simp: ms)
  from assms(1) consider h where "hs = [h]" | h1 h2 where "hs = [h1, h2]"
    by (metis (no_types) length_0_conv length_Suc_conv numeral_2_eq_2 One_nat_def)
  then show "padStart 2 (CHR ''0'') (toString (Number hs)) = (if length hs = 1 then CHR ''0'' # hs else hs)"
    using assms by cases (auto simp: pad2_one pad2_two)
qed


section \<open>Properties of the Event hook\<close>

lemma firstFailure_ok: "firstFailure rs = Inr () \<longleftrightarrow> list_all (\<lambda>r. r = Inr ()) rs"
  by (induction rs rule: firstFailure.induct) auto

lemma assertNonEmptyString_ok:
  "assertNonEmptyString v f = Inr () \<longleftrightarrow> (\<exists>s. v = Some s \<and> trim s \<noteq> [])"
  by (auto simp: assertNonEmptyString_def split: option.splits)

lemma assertRequired_ok:
  "assertRequired d = Inr () \<longleftrightarrow>
     assertNonEmptyString (title d) ''title'' = Inr () \<and>
     assertNonEmptyString (description d) ''description'' = Inr () \<and>
     assertNonEmptyString (overview d) ''overview'' = Inr () \<and>
     assertNonEmptyString (image' d) ''image'' = Inr () \<and>
     assertNonEmptyString (venue d) ''venue'' = Inr () \<and>
     assertNonEmptyString (location d) ''location'' = Inr () \<and>
     assertNonEmptyString (date d) ''date'' = Inr () \<and>
     assertNonEmptyString (time d) ''time'' = Inr () \<and>
     assertNonEmptyString (mode d) ''mode'' = Inr () \<and>
     assertNonEmptyString (audience d) ''audience'' = Inr () \<and>
     assertNonEmptyString (organizer d) ''organizer'' = Inr () \<and>
     assertNonEmptyStringArray (agenda d) ''agenda'' = Inr () \<and>
     assertNonEmptyStringArray (tags d) ''tags'' = Inr ()"
  by (simp add: assertRequired_def firstFailure_ok)

lemma assertRequired_time:
  assumes "assertRequired (d\<lparr>time := Some x\<rparr>) = Inr ()" and "trim y \<noteq> []"
  shows "assertRequired (d\<lparr>time := Some y\<rparr>) = Inr ()"
  using assms by (simp add: assertRequired_ok) (simp add: assertNonEmptyString_ok)

lemma map_of_update_same: "map_of (AList.update k v coll) k = Some v"
  by (simp add: update_conv')

lemma saveEvent_commits:
  assumes "preSave rt d = (None, d')" and "\<not> slugTaken coll k (slug d')"
  shows "saveEvent rt coll k d =
    (Inr (), d'\<lparr>modifiedPaths := []\<rparr>, AList.update k (d'\<lparr>modifiedPaths := []\<rparr>) coll)"
  using assms by (simp add: saveEvent_def)

lemma saveEvent_aborts:
  assumes "preSave rt d = (Some e, d')"
  shows "saveEvent rt coll k d = (Inl e, d', coll)"
  using assms by (simp add: saveEvent_def)

lemma preSave_required_fails:
  "assertRequired d = Inl e \<Longrightarrow> preSave rt d = (Some e, d)"
  by (simp add: preSave_def)

lemma preSave_date_fails:
  "assertRequired d = Inr () \<Longrightarrow> Date_new rt (str (date d)) = None \<Longrightarrow>
   preSave rt d = (Some InvalidDate, d)"
  by (simp add: preSave_def)

lemma preSave_format_fails:
  "assertRequired d = Inr () \<Longrightarrow> Date_new rt (str (date d)) = Some pd \<Longrightarrow>
   timeMatch (trim (str (time d))) = None \<Longrightarrow>
   preSave rt d = (Some InvalidTime, d\<lparr>date := Some (slice0 10 (toISOString pd))\<rparr>)"
  by (simp add: preSave_def Let_def)

lemma preSave_range_fails:
  "assertRequired d = Inr () \<Longrightarrow> Date_new rt (str (date d)) = Some pd \<Longrightarrow>
   timeMatch (trim (str (time d))) = Some (g1, g2) \<Longrightarrow>
   Number g1 < 0 \<or> 23 < Number g1 \<or> Number g2 < 0 \<or> 59 < Number g2 \<Longrightarrow>
   preSave rt d = (Some InvalidTime, d\<lparr>date := Some (slice0 10 (toISOString pd))\<rparr>)"
  by (simp add: preSave_def Let_def)

lemma preSave_passes:
  "assertRequired d = Inr () \<Longrightarrow> Date_new rt (str (date d)) = Some pd \<Longrightarrow>
   timeMatch (trim (str (time d))) = Some (g1, g2) \<Longrightarrow>
   0 \<le> Number g1 \<Longrightarrow> Number g1 \<le> 23 \<Longrightarrow> 0 \<le> Number g2 \<Longrightarrow> Number g2 \<le> 59 \<Longrightarrow>
   preSave rt d =
     (None,
      (d\<lparr>date := Some (slice0 10 (toISOString pd)),
         time := Some (padStart 2 (CHR ''0'') (toString (Number g1)) @ '':'' @
                       padStart 2 (CHR ''0'') (toString (Number g2)))\<rparr>)
       \<lparr>slug := (if isModified ''title'' d \<or> noSlug (slug d)
                 then Some (slugify (str (title d))) else slug d)\<rparr>)"
  by (simp add: preSave_def Let_def isModified_def)

lemma time_905: "timeMatch (trim ''9:05'') = Some (''9'', ''05'')"
  "Number ''9'' = 9" "Number ''05'' = 5"
  "padStart 2 (CHR ''0'') (toString 9) = ''09''" "padStart 2 (CHR ''0'') (toString 5) = ''05''"
  by code_simp+

lemma time_95: "timeMatch (trim ''9:5'') = None" "trim ''9:5'' \<noteq> []"
  by code_simp+

lemma time_2400: "timeMatch (trim ''24:00'') = Some (''24'', ''00'')" "Number ''24'' = 24"
  "trim ''24:00'' \<noteq> []"
  by code_simp+

text \<open>
  Claim C1, as amended.  For an Event write whose other fields are valid (the required
  fields pass, the date parses and no other document holds the slug): the time \<open>"9:05"\<close>
  is committed as \<open>"09:05"\<close>; the time \<open>"9:5"\<close> is refused with \<open>InvalidTime\<close>, because the
  pattern asks for two minute digits; and the time \<open>"24:00"\<close> is refused with
  \<open>InvalidTime\<close>.  A refused write leaves the collection as it was.
\<close>

theorem event_time_examples:
  assumes others: "assertRequired (d\<lparr>time := Some ''9:05''\<rparr>) = Inr ()"
    and parses: "Date_new rt (str (date d)) = Some pd"
    and free: "\<not> slugTaken coll k (slug (snd (preSave rt (d\<lparr>time := Some ''9:05''\<rparr>))))"
  shows "(\<exists>d'. saveEvent rt coll k (d\<lparr>time := Some ''9:05''\<rparr>) = (Inr (), d', AList.update k d' coll)
            \<and> time d' = Some ''09:05'') \<and>
         (\<exists>d'. saveEvent rt coll k (d\<lparr>time := Some ''9:5''\<rparr>) = (Inl InvalidTime, d', coll)) \<and>
         (\<exists>d'. saveEvent rt coll k (d\<lparr>time := Some ''24:00''\<rparr>) = (Inl InvalidTime, d', coll))"
proof (intro conjI)
  let ?d = "d\<lparr>time := Some ''9:05''\<rparr>"
  have "preSave rt ?d = (None, snd (preSave rt ?d))" "time (snd (preSave rt ?d)) = Some ''09:05''"
    using others parses
    by (simp_all add: preSave_passes [where pd = pd and ?g1.0 = "''9''" and ?g2.0 = "''05''"]
        str_def time_905)
  then show "\<exists>d'. saveEvent rt coll k ?d = (Inr (), d', AList.update k d' coll)
      \<and> time d' = Some ''09:05''"
    using saveEvent_commits [OF _ free] by simp
next
  let ?d = "d\<lparr>time := Some ''9:5''\<rparr>"
  have "assertRequired ?d = Inr ()"
    using assertRequired_time [OF others] time_95 by simp
  then have "\<exists>d'. preSave rt ?d = (Some InvalidTime, d')"
    using parses by (simp add: preSave_format_fails [where pd = pd] str_def time_95)
  then show "\<exists>d'. saveEvent rt coll k ?d = (Inl InvalidTime, d', coll)"
    using saveEvent_aborts by blast
next
  let ?d = "d\<lparr>time := Some ''24:00''\<rparr>"
  have "assertRequired ?d = Inr ()"
    using assertRequired_time [OF others] time_2400 by simp
  then have "\<exists>d'. preSave rt ?d = (Some InvalidTime, d')"
    using parses
    by (simp add: preSave_range_fails [where pd = pd and ?g1.0 = "''24''" and ?g2.0 = "''00''"]
        str_def time_2400)
  then show "\<exists>d'. saveEvent rt coll k ?d = (Inl InvalidTime, d', coll)"
    using saveEvent_aborts by blast
qed

theorem event_time_examples_witness:
  "assertRequired ((newEvent sampleEvent)\<lparr>time := Some ''9:05''\<rparr>) = Inr () \<and>
   Date_new (fixedOffsetRuntime 0) (str (date (newEvent sampleEvent))) = Some 1736035200000 \<and>
   (\<exists>d'. saveEvent (fixedOffsetRuntime 0) [] 1 ((newEvent sampleEvent)\<lparr>time := Some ''9:05''\<rparr>)
            = (Inr (), d', AList.update 1 d' []) \<and> time d' = Some ''09:05'') \<and>
   (\<exists>d'. saveEvent (fixedOffsetRuntime 0) [] 1 ((newEvent sampleEvent)\<lparr>time := Some ''9:5''\<rparr>)
            = (Inl InvalidTime, d', [])) \<and>
   (\<exists>d'. saveEvent (fixedOffsetRuntime 0) [] 1 ((newEvent sampleEvent)\<lparr>time := Some ''24:00''\<rparr>)
            = (Inl InvalidTime, d', []))"
proof -
  have h1: "assertRequired ((newEvent sampleEvent)\<lparr>time := Some ''9:05''\<rparr>) = Inr ()"
    by code_simp
  have h2: "Date_new (fixedOffsetRuntime 0) (str (date (newEvent sampleEvent)))
      = Some 1736035200000"
    by code_simp
  have h3: "\<not> slugTaken [] 1 x" for x
    by (simp add: slugTaken_def)
  show ?thesis
    using event_time_examples [OF h1 h2 h3] h1 h2 by simp
qed

text \<open>
  Claim C1 as worded fails: with every other field valid, the time \<open>"9:5"\<close> does not lead to
  a commit that stores \<open>"09:05"\<close>; the hook throws the \<open>InvalidTime\<close> failure.
\<close>

theorem time_9_5_refused:
  "fst (saveEvent (fixedOffsetRuntime 0) [] 1 ((newEvent sampleEvent)\<lparr>time := Some ''9:5''\<rparr>))
     = Inl InvalidTime"
  by code_simp

text \<open>
  Claim C10.  The hook trims the time before it applies the pattern.  So for every time
  that, once its leading and trailing white space is stripped, is an hour of one or two
  digits, a colon and a minute of two digits, with the hour at most 23 and the minute at
  most 59, an otherwise valid write commits, and the stored time is the stripped string
  with the hour padded to two digits: \<open>" 9:05 "\<close> is stored as \<open>"09:05"\<close>.
\<close>

theorem time_trimmed_before_match:
  assumes valid: "assertRequired d = Inr ()"
    and parses: "Date_new rt (str (date d)) = Some pd"
    and free: "\<not> slugTaken coll k (slug (snd (preSave rt d)))"
    and raw: "time d = Some raw"
    and shape: "trim raw = hs @ '':'' @ ms" "length hs = 1 \<or> length hs = 2" "list_all isDigit hs"
      "length ms = 2" "list_all isDigit ms"
    and range: "Number hs \<le> 23" "Number ms \<le> 59"
  shows "\<exists>d'. saveEvent rt coll k d = (Inr (), d', AList.update k d' coll) \<and>
           time d' = Some ((if length hs = 1 then CHR ''0'' # hs else hs) @ '':'' @ ms)"
proof -
  note hm = hour_minute_shape [OF shape(2-5)]
  have m: "timeMatch (trim (str (time d))) = Some (hs, ms)"
    using raw shape(1) hm(1) by (simp add: str_def)
  have "preSave rt d = (None, snd (preSave rt d))"
    "time (snd (preSave rt d)) = Some ((if length hs = 1 then CHR ''0'' # hs else hs) @ '':'' @ ms)"
    using preSave_passes [OF valid parses m Number_nonneg [OF shape(3)] range(1)
        Number_nonneg [OF shape(5)] range(2)] hm(2,3)
    by simp_all
  then show ?thesis
    using saveEvent_commits [OF _ free] by simp
qed

theorem time_trimmed_before_match_witness:
  "\<exists>d'. saveEvent (fixedOffsetRuntime 0) [] 1 ((newEvent sampleEvent)\<lparr>time := Some '' 9:05 ''\<rparr>)
           = (Inr (), d', AList.update 1 d' []) \<and> time d' = Some ''09:05''"
proof -
  let ?d = "(newEvent sampleEvent)\<lparr>time := Some '' 9:05 ''\<rparr>"
  have h1: "assertRequired ?d = Inr ()"
    by code_simp
  have h2: "Date_new (fixedOffsetRuntime 0) (str (date ?d)) = Some 1736035200000"
    by code_simp
  have h3: "\<not> slugTaken [] 1 x" for x
    by (simp add: slugTaken_def)
  have h4: "time ?d = Some '' 9:05 ''"
    by simp
  have h5: "trim '' 9:05 '' = ''9'' @ '':'' @ ''05''"
    by code_simp
  have h6: "list_all isDigit ''9''" "list_all isDigit ''05''" "Number ''9'' \<le> 23" "Number ''05'' \<le> 59"
    by code_simp+
  show ?thesis
    using time_trimmed_before_match [OF h1 h2 h3 h4 h5 _ h6(1) _ h6(2) h6(3) h6(4)] by simp
qed

lemma firstFailure_mem: "firstFailure rs = Inl e \<Longrightarrow> Inl e \<in> set rs"
  by (induction rs rule: firstFailure.induct) auto

lemma assertRequired_kind:
  assumes "assertRequired d = Inl e"
  shows "e \<noteq> InvalidTime"
proof -
  have "Inl e \<in> set
       [assertNonEmptyString (title d) ''title'',
        assertNonEmptyString (description d) ''description'',
        assertNonEmptyString (overview d) ''overview'',
        assertNonEmptyString (image' d) ''image'',
        assertNonEmptyString (venue d) ''venue'',
        assertNonEmptyString (location d) ''location'',
        assertNonEmptyString (date d) ''date'',
        assertNonEmptyString (time d) ''time'',
        assertNonEmptyString (mode d) ''mode'',
        assertNonEmptyString (audience d) ''audience'',
        assertNonEmptyString (organizer d) ''organizer'',
        assertNonEmptyStringArray (agenda d) ''agenda'',
        assertNonEmptyStringArray (tags d) ''tags'']"
    using assms unfolding assertRequired_def by (rule firstFailure_mem)
  moreover have "assertNonEmptyString v f \<noteq> Inl InvalidTime" for v f
    by (simp add: assertNonEmptyString_def split: option.splits)
  moreover have "assertNonEmptyStringArray v f \<noteq> Inl InvalidTime" for v f
    by (simp add: assertNonEmptyStringArray_def split: option.splits)
  ultimately show ?thesis
    by (metis (no_types, lifting) set_ConsD empty_iff empty_set)
qed

lemma preSave_outcome:
  obtains (required) e where "assertRequired d = Inl e" "preSave rt d = (Some e, d)"
  | (date) "assertRequired d = Inr ()" "preSave rt d = (Some InvalidDate, d)"
  | (time) pd where "assertRequired d = Inr ()" "Date_new rt (str (date d)) = Some pd"
      "preSave rt d = (Some InvalidTime, d\<lparr>date := Some (slice0 10 (toISOString pd))\<rparr>)"
  | (pass) pd g1 g2 where "assertRequired d = Inr ()" "Date_new rt (str (date d)) = Some pd"
      "timeMatch (trim (str (time d))) = Some (g1, g2)"
      "0 \<le> Number g1" "Number g1 \<le> 23" "0 \<le> Number g2" "Number g2 \<le> 59"
      "preSave rt d =
        (None,
         (d\<lparr>date := Some (slice0 10 (toISOString pd)),
            time := Some (padStart 2 (CHR ''0'') (toString (Number g1)) @ '':'' @
                          padStart 2 (CHR ''0'') (toString (Number g2)))\<rparr>)
          \<lparr>slug := (if isModified ''title'' d \<or> noSlug (slug d)
                    then Some (slugify (str (title d))) else slug d)\<rparr>)"
proof (cases "assertRequired d")
  case (Inl e)
  then show ?thesis
    using required preSave_required_fails by blast
next
  case (Inr u)
  then have req: "assertRequired d = Inr ()"
    by simp
  show ?thesis
  proof (cases "Date_new rt (str (date d))")
    case None
    then show ?thesis
      using date req preSave_date_fails by blast
  next
    case (Some pd)
    show ?thesis
    proof (cases "timeMatch (trim (str (time d)))")
      case None
      then show ?thesis
        using time [OF req Some] preSave_format_fails [OF req Some] by blast
    next
      case (Some g)
      obtain g1 g2 where g: "timeMatch (trim (str (time d))) = Some (g1, g2)"
        using Some by (cases g) auto
      show ?thesis
      proof (cases "Number g1 < 0 \<or> 23 < Number g1 \<or> Number g2 < 0 \<or> 59 < Number g2")
        case True
        then show ?thesis
          using time [OF req \<open>Date_new rt (str (date d)) = Some pd\<close>]
            preSave_range_fails [OF req \<open>Date_new rt (str (date d)) = Some pd\<close> g] by blast
      next
        case False
        then have r: "0 \<le> Number g1" "Number g1 \<le> 23" "0 \<le> Number g2" "Number g2 \<le> 59"
          by auto
        show ?thesis
          using pass [OF req \<open>Date_new rt (str (date d)) = Some pd\<close> g r]
            preSave_passes [OF req \<open>Date_new rt (str (date d)) = Some pd\<close> g r] by blast
      qed
    qed
  qed
qed

text \<open>
  Claim C2, as amended.  For every Event write in which a validation step fails, the
  write is aborted and nothing is persisted: the collection is left as it was.  The
  document in memory is left as it was when the failure is not \<open>InvalidTime\<close>.  When the
  time check fails, the document keeps the date that the hook has already overwritten
  with its normalized form, and no other field is changed.
\<close>

theorem failed_validation_effects:
  assumes fails: "fst (preSave rt d) = Some e"
  shows "saveEvent rt coll k d = (Inl e, snd (preSave rt d), coll) \<and>
         (if e = InvalidTime
          then \<exists>pd. Date_new rt (str (date d)) = Some pd \<and>
                 snd (preSave rt d) = d\<lparr>date := Some (slice0 10 (toISOString pd))\<rparr>
          else snd (preSave rt d) = d)"
proof
  have "preSave rt d = (Some e, snd (preSave rt d))"
    using fails by (metis prod.collapse)
  then show "saveEvent rt coll k d = (Inl e, snd (preSave rt d), coll)"
    by (rule saveEvent_aborts)
  show "if e = InvalidTime
      then \<exists>pd. Date_new rt (str (date d)) = Some pd \<and>
             snd (preSave rt d) = d\<lparr>date := Some (slice0 10 (toISOString pd))\<rparr>
      else snd (preSave rt d) = d"
  proof (cases rule: preSave_outcome [of d rt])
    case (required e')
    then show ?thesis
      using fails assertRequired_kind by auto
  next
    case date
    then show ?thesis
      using fails by auto
  next
    case (time pd)
    then show ?thesis
      using fails by auto
  next
    case (pass pd g1 g2)
    then show ?thesis
      using fails by simp
  qed
qed

theorem failed_validation_effects_witness:
  "fst (preSave (fixedOffsetRuntime 0)
          ((newEvent sampleEvent)\<lparr>date := Some ''2025-01-05T10:30:00Z'', time := Some ''24:00''\<rparr>))
     = Some InvalidTime \<and>
   saveEvent (fixedOffsetRuntime 0) [] 1
       ((newEvent sampleEvent)\<lparr>date := Some ''2025-01-05T10:30:00Z'', time := Some ''24:00''\<rparr>)
     = (Inl InvalidTime,
        snd (preSave (fixedOffsetRuntime 0)
          ((newEvent sampleEvent)\<lparr>date := Some ''2025-01-05T10:30:00Z'', time := Some ''24:00''\<rparr>)),
        []) \<and>
   fst (preSave (fixedOffsetRuntime 0) ((newEvent sampleEvent)\<lparr>date := Some ''next week''\<rparr>))
     = Some InvalidDate \<and>
   snd (preSave (fixedOffsetRuntime 0) ((newEvent sampleEvent)\<lparr>date := Some ''next week''\<rparr>))
     = (newEvent sampleEvent)\<lparr>date := Some ''next week''\<rparr>"
proof -
  let ?a = "(newEvent sampleEvent)\<lparr>date := Some ''2025-01-05T10:30:00Z'', time := Some ''24:00''\<rparr>"
  let ?b = "(newEvent sampleEvent)\<lparr>date := Some ''next week''\<rparr>"
  have a: "fst (preSave (fixedOffsetRuntime 0) ?a) = Some InvalidTime"
    by code_simp
  have b: "fst (preSave (fixedOffsetRuntime 0) ?b) = Some InvalidDate"
    by code_simp
  show ?thesis
    using failed_validation_effects [OF a, of "[]" 1] failed_validation_effects [OF b, of "[]" 1] a b
    by simp
qed

text \<open>
  Claim C2 as worded fails: a write with the date \<open>"2025-01-05T10:30:00Z"\<close> and the time
  \<open>"24:00"\<close> is refused by the time check, and the document is left with the date in its
  normalized form \<open>"2025-01-05"\<close>.
\<close>

theorem failed_time_check_keeps_normalized_date:
  "fst (saveEvent (fixedOffsetRuntime 0) [] 1
          ((newEvent sampleEvent)\<lparr>date := Some ''2025-01-05T10:30:00Z'', time := Some ''24:00''\<rparr>))
     = Inl InvalidTime \<and>
   date (fst (snd (saveEvent (fixedOffsetRuntime 0) [] 1
          ((newEvent sampleEvent)\<lparr>date := Some ''2025-01-05T10:30:00Z'', time := Some ''24:00''\<rparr>))))
     = Some ''2025-01-05'' \<and>
   date ((newEvent sampleEvent)\<lparr>date := Some ''2025-01-05T10:30:00Z'', time := Some ''24:00''\<rparr>)
     = Some ''2025-01-05T10:30:00Z''"
  by code_simp

lemma isModified_setDescription:
  "isModified ''title'' (setDescription v d) = isModified ''title'' d"
  by (simp add: isModified_def setDescription_def)

lemma slug_setDescription: "slug (setDescription v d) = slug d"
  by (simp add: setDescription_def)

lemma my_event_slug: "slugify ''My Event'' = ''my-event''"
  by code_simp

lemma slug_after_preSave:
  "slug (snd (preSave rt d)) =
     (if fst (preSave rt d) = None \<and> (isModified ''title'' d \<or> noSlug (slug d))
      then map_option slugify (title d) else slug d)"
proof (cases rule: preSave_outcome [of d rt])
  case (pass pd g1 g2)
  have "\<exists>s. title d = Some s"
    using pass(1) by (auto simp: assertRequired_ok assertNonEmptyString_ok)
  then show ?thesis
    using pass(8) by (auto simp: str_def)
qed auto

text \<open>
  Claim C4.  The hook leaves the document with the slug \<open>slugify(title)\<close> exactly when the
  validation passes and the title was modified in this write or the document has no
  slug (\<open>!this.slug\<close>: none, or the empty string); in every other case the slug is left
  untouched.  So a write that creates an Event with the title \<open>"My Event"\<close> and no slug
  sets the slug \<open>"my-event"\<close>, and a later write that changes the description only, on
  a document whose title is not modified and that has a slug, leaves the slug unchanged.
\<close>

theorem slug_recomputed_iff:
  "slug (snd (preSave rt d)) =
     (if fst (preSave rt d) = None \<and> (isModified ''title'' d \<or> noSlug (slug d))
      then map_option slugify (title d) else slug d) \<and>
   (fst (preSave rt d) = None \<and> title d = Some ''My Event'' \<and> noSlug (slug d) \<longrightarrow>
      slug (snd (preSave rt d)) = Some ''my-event'') \<and>
   (\<not> isModified ''title'' d \<and> \<not> noSlug (slug d) \<longrightarrow>
      slug (snd (preSave rt (setDescription v d))) = slug d)"
  using slug_after_preSave [of rt d] slug_after_preSave [of rt "setDescription v d"]
  by (simp add: my_event_slug isModified_setDescription slug_setDescription)

theorem slug_recomputed_iff_witness:
  "fst (saveEvent (fixedOffsetRuntime 0) [] 1 (newEvent sampleEvent)) = Inr () \<and>
   slug (snd (preSave (fixedOffsetRuntime 0) (newEvent sampleEvent))) = Some ''my-event'' \<and>
   slug (fst (snd (saveEvent (fixedOffsetRuntime 0) [] 1 (newEvent sampleEvent))))
     = Some ''my-event'' \<and>
   slug (snd (preSave (fixedOffsetRuntime 0)
      (setDescription ''A bigger meetup''
         (fst (snd (saveEvent (fixedOffsetRuntime 0) [] 1 (newEvent sampleEvent)))))))
     = Some ''my-event''"
proof -
  let ?rt = "fixedOffsetRuntime 0"
  let ?stored = "fst (snd (saveEvent ?rt [] 1 (newEvent sampleEvent)))"
  have ok: "fst (saveEvent ?rt [] 1 (newEvent sampleEvent)) = Inr ()"
    by code_simp
  have new: "fst (preSave ?rt (newEvent sampleEvent)) = None"
    "title (newEvent sampleEvent) = Some ''My Event''" "noSlug (slug (newEvent sampleEvent))"
    by code_simp+
  have stored: "\<not> isModified ''title'' ?stored" "\<not> noSlug (slug ?stored)"
    "slug ?stored = Some ''my-event''"
    by code_simp+
  have created: "slug (snd (preSave ?rt (newEvent sampleEvent))) = Some ''my-event''"
    using slug_recomputed_iff [of ?rt "newEvent sampleEvent"] new by blast
  have updated: "slug (snd (preSave ?rt (setDescription ''A bigger meetup'' ?stored)))
      = slug ?stored"
    using slug_recomputed_iff [of ?rt ?stored "''A bigger meetup''"] stored(1,2) by blast
  show ?thesis
    using ok created updated stored(3) by simp
qed

section \<open>Properties of the Booking hook\<close>

lemma isWhiteSpace_lowerChar: "isWhiteSpace (lowerChar c) = isWhiteSpace c"
proof (cases "(65 \<le> code c \<and> code c \<le> 90) \<or> (192 \<le> code c \<and> code c \<le> 222 \<and> code c \<noteq> 215)")
  case True
  then have "code (char_of (code c + 32)) = code c + 32"
    by (auto simp: code_def)
  then show ?thesis
    using True by (auto simp: lowerChar_def isWhiteSpace_def)
next
  case False
  then show ?thesis
    by (auto simp: lowerChar_def)
qed

lemma setters_commute: "trim (toLowerCase s) = toLowerCase (trim s)"
proof -
  have "isWhiteSpace \<circ> lowerChar = isWhiteSpace"
    by (rule ext) (simp add: isWhiteSpace_lowerChar)
  then show ?thesis
    by (simp add: trim_def trimStart_def trimEnd_def toLowerCase_def dropWhile_map rev_map)
qed

text \<open>
  Claim C5.  A Booking write whose \<open>eventId\<close> is absent, or whose email is absent, empty
  after trimming or outside the email pattern, fails in the format checks, with
  \<open>MissingField\<close> or \<open>InvalidEmail\<close>, before the referential check: the list of
  \<open>Event.exists\<close> queries sent is empty, and nothing is persisted.  The checks run in the
  order \<open>eventId\<close>, empty email, email pattern, and the first that fails names the failure.
\<close>

theorem malformed_booking_never_queries:
  "(eventId b = None \<or> email b = None \<or>
      (\<exists>em. email b = Some em \<and> (trim em = [] \<or> \<not> isValidEmail em)) \<longrightarrow>
      (\<exists>e. saveBooking coll bs b = (Inl e, [], bs) \<and>
           (e = MissingField ''eventId'' \<or> e = MissingField ''email'' \<or> e = InvalidEmail))) \<and>
   (eventId b = None \<longrightarrow>
      saveBooking coll bs b = (Inl (MissingField ''eventId''), [], bs)) \<and>
   (eventId b \<noteq> None \<and> (email b = None \<or> (\<exists>em. email b = Some em \<and> trim em = [])) \<longrightarrow>
      saveBooking coll bs b = (Inl (MissingField ''email''), [], bs)) \<and>
   (eventId b \<noteq> None \<and> (\<exists>em. email b = Some em \<and> trim em \<noteq> [] \<and> \<not> isValidEmail em) \<longrightarrow>
      saveBooking coll bs b = (Inl InvalidEmail, [], bs))"
  by (auto simp: saveBooking_def bookingPreSave_def split: option.splits)

theorem malformed_booking_never_queries_witness:
  "saveBooking [(1, sampleEvent)] [] \<lparr>eventId = None, email = Some ''foo@bar.com''\<rparr>
     = (Inl (MissingField ''eventId''), [], []) \<and>
   saveBooking [(1, sampleEvent)] [] \<lparr>eventId = Some 1, email = Some ''   ''\<rparr>
     = (Inl (MissingField ''email''), [], []) \<and>
   saveBooking [(1, sampleEvent)] [] \<lparr>eventId = Some 1, email = Some ''not-an-email''\<rparr>
     = (Inl InvalidEmail, [], [])"
proof -
  have a: "trim ''   '' = []" "trim ''not-an-email'' \<noteq> []" "\<not> isValidEmail ''not-an-email''"
    by code_simp+
  show ?thesis
    using malformed_booking_never_queries
        [of "\<lparr>eventId = None, email = Some ''foo@bar.com''\<rparr>" "[(1, sampleEvent)]" "[]"]
      malformed_booking_never_queries
        [of "\<lparr>eventId = Some 1, email = Some ''   ''\<rparr>" "[(1, sampleEvent)]" "[]"]
      malformed_booking_never_queries
        [of "\<lparr>eventId = Some 1, email = Some ''not-an-email''\<rparr>" "[(1, sampleEvent)]" "[]"]
      a
    by simp
qed

text \<open>
  Claim C6.  A Booking write whose \<open>eventId\<close> does not resolve to an existing Event via
  the \<open>exists\<close> query (the hook sends the query for it and no Event is found) fails with
  \<open>DanglingReference\<close>, and no Booking is persisted.  The hook sends the query exactly
  when the \<open>eventId\<close> is present and the email is a non-empty string that matches the
  pattern.  No Booking is ever committed against a nonexistent Event: a write whose
  \<open>eventId\<close> is absent or names no Event always fails and leaves the collection as it
  was, and every committed Booking names an Event that the query has found.
\<close>

theorem dangling_booking_rejected:
  "(fst (snd (saveBooking coll bs b)) = [eid] \<and> \<not> Event_exists coll eid \<longrightarrow>
      saveBooking coll bs b = (Inl (DanglingReference ''eventId''), [eid], bs)) \<and>
   (fst (snd (saveBooking coll bs b)) = [eid] \<longleftrightarrow>
      eventId b = Some eid \<and> (\<exists>em. email b = Some em \<and> trim em \<noteq> [] \<and> isValidEmail em)) \<and>
   (eventId b = None \<or> (eventId b = Some eid \<and> \<not> Event_exists coll eid) \<longrightarrow>
      (\<exists>e qs. saveBooking coll bs b = (Inl e, qs, bs))) \<and>
   (\<forall>u qs bs'. saveBooking coll bs b = (Inr u, qs, bs') \<longrightarrow>
      (\<exists>k. eventId b = Some k \<and> Event_exists coll k \<and> qs = [k] \<and> bs' = bs @ [b]))"
  by (auto simp: saveBooking_def bookingPreSave_def split: option.splits if_splits)

theorem dangling_booking_rejected_witness:
  "\<not> Event_exists [(1, sampleEvent)] 2 \<and>
   fst (snd (saveBooking [(1, sampleEvent)] [] \<lparr>eventId = Some 2, email = Some ''foo@bar.com''\<rparr>))
     = [2] \<and>
   saveBooking [(1, sampleEvent)] [] \<lparr>eventId = Some 2, email = Some ''foo@bar.com''\<rparr>
     = (Inl (DanglingReference ''eventId''), [2], [])"
proof -
  let ?b = "\<lparr>eventId = Some 2, email = Some ''foo@bar.com''\<rparr>"
  have a: "\<not> Event_exists [(1, sampleEvent)] 2"
    by (simp add: Event_exists_def)
  have c: "trim ''foo@bar.com'' \<noteq> []" "isValidEmail ''foo@bar.com''"
    by code_simp+
  note t = dangling_booking_rejected [of "[(1, sampleEvent)]" "[]" ?b 2]
  have sent: "fst (snd (saveBooking [(1, sampleEvent)] [] ?b)) = [2]"
    using t c by simp
  have "saveBooking [(1, sampleEvent)] [] ?b = (Inl (DanglingReference ''eventId''), [2], [])"
    using t sent a by blast
  then show ?thesis
    using a sent by simp
qed

text \<open>
  Claim C9.  A Booking created with the email \<open>"  FOO@BAR.com "\<close> and the identifier of
  an existing Event is committed, and the stored email is \<open>"foo@bar.com"\<close>: the setters of
  the schema have trimmed and lower-cased it before the hook validates it.  A Booking
  created with the email \<open>"not-an-email"\<close> is refused with \<open>InvalidEmail\<close>.
\<close>

theorem booking_email_examples:
  "(Event_exists coll eid \<longrightarrow>
      saveBooking coll bs (newBooking (Some eid) (Some ''  FOO@BAR.com ''))
        = (Inr (), [eid], bs @ [\<lparr>eventId = Some eid, email = Some ''foo@bar.com''\<rparr>])) \<and>
   saveBooking coll bs (newBooking (Some eid) (Some ''not-an-email'')) = (Inl InvalidEmail, [], bs)"
proof -
  have a: "trim (toLowerCase ''  FOO@BAR.com '') = ''foo@bar.com''"
    "trim ''foo@bar.com'' \<noteq> []" "isValidEmail ''foo@bar.com''"
    "trim (toLowerCase ''not-an-email'') = ''not-an-email''"
    "trim ''not-an-email'' \<noteq> []" "\<not> isValidEmail ''not-an-email''"
    by code_simp+
  show ?thesis
    by (simp add: saveBooking_def bookingPreSave_def newBooking_def a)
qed

theorem booking_email_examples_witness:
  "Event_exists [(1, sampleEvent)] 1 \<and>
   saveBooking [(1, sampleEvent)] [] (newBooking (Some 1) (Some ''  FOO@BAR.com ''))
     = (Inr (), [1], [\<lparr>eventId = Some 1, email = Some ''foo@bar.com''\<rparr>]) \<and>
   saveBooking [(1, sampleEvent)] [] (newBooking (Some 1) (Some ''not-an-email''))
     = (Inl InvalidEmail, [], [])"
proof -
  have a: "Event_exists [(1, sampleEvent)] 1"
    by (simp add: Event_exists_def)
  show ?thesis
    using booking_email_examples [of "[(1, sampleEvent)]" 1 "[]"] a by simp
qed

section \<open>Properties of the stored date and time\<close>

lemma div_step:
  fixes a k :: int
  assumes "0 < k"
  shows "a div k \<le> (a + 1) div k" and "(a + 1) div k \<le> a div k + 1"
proof -
  show "a div k \<le> (a + 1) div k"
    using assms by (intro zdiv_mono1) simp_all
  have "(a + 1) div k \<le> (a + k) div k"
    using assms by (intro zdiv_mono1) simp_all
  moreover have "(a + k) div k = a div k + 1"
    using assms by (subst div_add_self2) simp_all
  ultimately show "(a + 1) div k \<le> a div k + 1"
    by simp
qed

lemma DayFromYear_step:
  "DayFromYear y + 364 \<le> DayFromYear (y + 1)" "DayFromYear (y + 1) \<le> DayFromYear y + 367"
proof -
  have a: "(y - 1969) div 4 \<le> (y - 1969 + 1) div 4"
    "(y - 1969 + 1) div 4 \<le> (y - 1969) div 4 + 1"
    by (rule div_step; simp)+
  have b: "(y - 1901) div 100 \<le> (y - 1901 + 1) div 100"
    "(y - 1901 + 1) div 100 \<le> (y - 1901) div 100 + 1"
    by (rule div_step; simp)+
  have c: "(y - 1601) div 400 \<le> (y - 1601 + 1) div 400"
    "(y - 1601 + 1) div 400 \<le> (y - 1601) div 400 + 1"
    by (rule div_step; simp)+
  have e: "y + 1 - 1969 = y - 1969 + 1" "y + 1 - 1901 = y - 1901 + 1"
    "y + 1 - 1601 = y - 1601 + 1"
    by simp_all
  have lin: "\<And>p p' q q' r r' :: int.
      p \<le> p' \<Longrightarrow> p' \<le> p + 1 \<Longrightarrow> q \<le> q' \<Longrightarrow> q' \<le> q + 1 \<Longrightarrow> r \<le> r' \<Longrightarrow> r' \<le> r + 1 \<Longrightarrow>
      365 * (y - 1970) + p - q + r + 364 \<le> 365 * (y + 1 - 1970) + p' - q' + r' \<and>
      365 * (y + 1 - 1970) + p' - q' + r' \<le> 365 * (y - 1970) + p - q + r + 367"
    by auto
  show "DayFromYear y + 364 \<le> DayFromYear (y + 1)"
    "DayFromYear (y + 1) \<le> DayFromYear y + 367"
    unfolding DayFromYear_def e using lin [OF a b c] by blast+
qed

lemma year_down_le: "DayFromYear (year_down d y) \<le> d"
  by (induction d y rule: year_down.induct) (subst year_down.simps, simp)

lemma year_up_bounds:
  "DayFromYear y \<le> d \<Longrightarrow>
   DayFromYear (year_up d y) \<le> d \<and> d < DayFromYear (year_up d y + 1)"
  by (induction d y rule: year_up.induct) (subst (1 2) year_up.simps, simp)

lemma YearFromDay_bounds:
  "DayFromYear (YearFromDay d) \<le> d" "d < DayFromYear (YearFromDay d + 1)"
  using year_up_bounds [OF year_down_le] by (simp_all add: YearFromDay_def)

lemma DayWithinYear_bounds: "0 \<le> DayWithinYear t" "DayWithinYear t < 367"
  using YearFromDay_bounds [of "Day t"] DayFromYear_step(2) [of "YearFromDay (Day t)"]
  by (simp_all add: DayWithinYear_def YearFromTime_def)

lemma monthOfDay_range: "0 \<le> monthOfDay leap dwy" "monthOfDay leap dwy \<le> 11"
  by (simp_all add: monthOfDay_def)

lemma MonthFromTime_range: "0 \<le> MonthFromTime t" "MonthFromTime t \<le> 11"
  by (simp_all add: MonthFromTime_def monthOfDay_range)

lemma DateFromTime_range: "1 \<le> DateFromTime t" "DateFromTime t \<le> 33"
  using DayWithinYear_bounds [of t]
  by (auto simp: DateFromTime_def MonthFromTime_def monthOfDay_def monthStart_def Let_def)


lemma isDigit_digitChar: "0 \<le> n \<Longrightarrow> n \<le> 9 \<Longrightarrow> isDigit (digitChar n)"
  by (simp add: isDigit_def digitChar_def code_def)

lemma isDigit_zero: "isDigit (CHR ''0'')" "code (CHR ''0'') = 48"
  by (simp_all add: isDigit_def code_def)

lemma showDigits_digits: "0 \<le> n \<Longrightarrow> list_all isDigit (showDigits n)"
proof (induction n rule: showDigits.induct)
  case (1 n)
  show ?case
  proof (cases "n < 10")
    case True
    then show ?thesis
      using 1(2) by (subst showDigits.simps) (simp add: isDigit_digitChar)
  next
    case False
    moreover have "0 \<le> n div 10" "0 \<le> n mod 10" "n mod 10 \<le> 9"
      using 1(2) by simp_all
    ultimately show ?thesis
      using 1(1) by (subst showDigits.simps) (simp add: isDigit_digitChar)
  qed
qed

lemma length_showDigits: "0 \<le> n \<Longrightarrow> n < 10 ^ Suc k \<Longrightarrow> length (showDigits n) \<le> Suc k"
proof (induction n arbitrary: k rule: showDigits.induct)
  case (1 n)
  show ?case
  proof (cases "n < 10")
    case True
    then show ?thesis
      by (subst showDigits.simps) simp
  next
    case False
    then obtain j where k: "k = Suc j"
      using 1(3) by (cases k) auto
    have "n div 10 < 10 ^ Suc j"
      using 1(3) unfolding k by (simp add: div_less_iff_less_mult)
    moreover have "0 \<le> n div 10"
      using 1(2) by simp
    ultimately have "length (showDigits (n div 10)) \<le> Suc j"
      using 1(1) [OF False] by blast
    then show ?thesis
      using False unfolding k by (subst showDigits.simps) simp
  qed
qed

lemma pad_digits:
  assumes "0 \<le> n" and "n < 10 ^ Suc k"
  shows "length (pad (Suc k) n) = Suc k" and "list_all isDigit (pad (Suc k) n)"
proof -
  have l: "length (showDigits n) \<le> Suc k"
    using assms by (rule length_showDigits)
  then show "length (pad (Suc k) n) = Suc k"
    using assms(1) by (simp add: pad_def padStart_def toString_def)
  show "list_all isDigit (pad (Suc k) n)"
    using assms(1) showDigits_digits [OF assms(1)]
    by (auto simp: pad_def padStart_def toString_def list_all_iff isDigit_zero)
qed

lemma list_of_length:
  "length xs = 4 \<Longrightarrow> \<exists>a b c d. xs = [a, b, c, d]"
  "length xs = 2 \<Longrightarrow> \<exists>a b. xs = [a, b]"
  by (auto simp: length_Suc_conv numeral_eq_Suc)

lemma stored_date_pattern:
  assumes "0 \<le> YearFromTime t" and "YearFromTime t \<le> 9999"
  shows "matchesDatePattern (slice0 10 (toISOString t))"
proof -
  have y: "length (isoYear (YearFromTime t)) = 4" "list_all isDigit (isoYear (YearFromTime t))"
    using assms pad_digits [of "YearFromTime t" 3] by (simp_all add: isoYear_def numeral_eq_Suc)
  have m: "length (pad 2 (MonthFromTime t + 1)) = 2" "list_all isDigit (pad 2 (MonthFromTime t + 1))"
    using MonthFromTime_range [of t] pad_digits [of "MonthFromTime t + 1" 1]
    by (simp_all add: numeral_eq_Suc)
  have d: "length (pad 2 (DateFromTime t)) = 2" "list_all isDigit (pad 2 (DateFromTime t))"
    using DateFromTime_range [of t] pad_digits [of "DateFromTime t" 1]
    by (simp_all add: numeral_eq_Suc)
  obtain y1 y2 y3 y4 where ys: "isoYear (YearFromTime t) = [y1, y2, y3, y4]"
    using list_of_length(1) [OF y(1)] by blast
  obtain m1 m2 where ms: "pad 2 (MonthFromTime t + 1) = [m1, m2]"
    using list_of_length(2) [OF m(1)] by blast
  obtain d1 d2 where ds: "pad 2 (DateFromTime t) = [d1, d2]"
    using list_of_length(2) [OF d(1)] by blast
  show ?thesis
    using y(2) m(2) d(2) by (simp add: slice0_def toISOString_def ys ms ds)
qed

lemma timeMatch_shape:
  assumes "timeMatch s = Some (g1, g2)"
  shows "(length g1 = 1 \<or> length g1 = 2) \<and> list_all isDigit g1 \<and> length g2 = 2 \<and>
         list_all isDigit g2"
  using assms by (induction s rule: timeMatch.induct) (auto split: if_splits)

lemma stored_time_pattern:
  assumes "timeMatch s = Some (g1, g2)" and "Number g1 \<le> 23" and "Number g2 \<le> 59"
  shows "matchesTimePattern (padStart 2 (CHR ''0'') (toString (Number g1)) @ '':'' @
                             padStart 2 (CHR ''0'') (toString (Number g2)))"
proof -
  note sh = timeMatch_shape [OF assms(1)]
  then have p: "padStart 2 (CHR ''0'') (toString (Number g1)) = (if length g1 = 1 then CHR ''0'' # g1 else g1)"
    "padStart 2 (CHR ''0'') (toString (Number g2)) = g2"
    using hour_minute_shape(2,3) by blast+
  obtain m1 m2 where g2: "g2 = [m1, m2]"
    using sh list_of_length(2) by blast
  from sh consider h where "g1 = [h]" | h1 h2 where "g1 = [h1, h2]"
    by (auto simp: length_Suc_conv numeral_eq_Suc)
  then have "matchesTimePattern ((if length g1 = 1 then CHR ''0'' # g1 else g1) @ '':'' @ g2)"
  proof cases
    case 1
    then show ?thesis
      using sh assms(2,3) by (simp add: g2 isDigit_zero Number_one Number_two)
  next
    case 2
    then show ?thesis
      using sh assms(2,3) by (simp add: g2)
  qed
  then show ?thesis
    by (simp only: p)
qed

lemma preSave_stored_formats:
  assumes "fst (preSave rt d) = None"
  shows "\<exists>tm pd. time (snd (preSave rt d)) = Some tm \<and> matchesTimePattern tm \<and>
           Date_new rt (str (date d)) = Some pd \<and>
           date (snd (preSave rt d)) = Some (slice0 10 (toISOString pd)) \<and>
           (0 \<le> YearFromTime pd \<and> YearFromTime pd \<le> 9999 \<longrightarrow>
              matchesDatePattern (slice0 10 (toISOString pd)))"
proof (cases rule: preSave_outcome [of d rt])
  case (pass pd g1 g2)
  show ?thesis
    using stored_time_pattern [OF pass(3) pass(5) pass(7)] stored_date_pattern [of pd] pass(2)
    by (simp add: pass(8))
qed (use assms in auto)

text \<open>
  A date in the form \<open>YYYY-MM-DD\<close> is read as UTC and stored as it is, whatever the time
  zone of the process.  A date-time without an offset is read as local time, so east of
  UTC the stored date is the day before the one written.
\<close>

lemma iso_date_kept_in_every_zone:
  "fst (saveEvent rt [] 1 (newEvent (sampleEvent\<lparr>date := Some ''2025-01-05''\<rparr>))) = Inr () \<and>
   date (fst (snd (saveEvent rt [] 1 (newEvent (sampleEvent\<lparr>date := Some ''2025-01-05''\<rparr>)))))
     = Some ''2025-01-05''"
  by code_simp

lemma local_date_time_shifted_east_of_utc:
  "date (fst (snd (saveEvent (fixedOffsetRuntime 60) [] 1
       (newEvent (sampleEvent\<lparr>date := Some ''2025-01-05T00:30''\<rparr>))))) = Some ''2025-01-04''"
  by code_simp

text \<open>
  Claim C3.  The claim: for an Event write whose other fields are valid, the date
  \<open>"2025-1-5"\<close> leads to a commit that stores the date \<open>"2025-01-05"\<close>, its canonical
  \<open>YYYY-MM-DD\<close> form.  The hook departs from it: \<open>"2025-1-5"\<close> is outside the date format
  of the language, the engine reads it as a local time at midnight, and \<open>toISOString\<close>
  writes the date in UTC.  In a process one hour east of UTC the write commits and
  stores \<open>"2025-01-04"\<close>; at UTC itself it stores \<open>"2025-01-05"\<close>.
\<close>

theorem unpadded_date_shifted_east_of_utc:
  "fst (saveEvent (fixedOffsetRuntime 60) [] 1 (newEvent (sampleEvent\<lparr>date := Some ''2025-1-5''\<rparr>)))
     = Inr () \<and>
   date (fst (snd (saveEvent (fixedOffsetRuntime 60) [] 1
       (newEvent (sampleEvent\<lparr>date := Some ''2025-1-5''\<rparr>))))) = Some ''2025-01-04'' \<and>
   date (fst (snd (saveEvent (fixedOffsetRuntime 0) [] 1
       (newEvent (sampleEvent\<lparr>date := Some ''2025-1-5''\<rparr>))))) = Some ''2025-01-05''"
  by code_simp

text \<open>
  Claim C7.  The claim: after every successful commit the stored date matches
  \<open>^\d{4}-\d{2}-\d{2}$\<close> and the stored time matches \<open>^\d{2}:\d{2}$\<close> with the hour at most
  23 and the minute at most 59.  Lemma \<open>preSave_stored_formats\<close> shows the time part,
  and the date part for every date whose year is between 0 and 9999.  The hook departs
  from the claim outside those years: \<open>toISOString\<close> writes such a year with a sign and
  six digits, and the first ten characters are kept.  In every runtime the date
  \<open>"+010000-01-01"\<close> is committed and stored as \<open>"+010000-01"\<close>.
\<close>

theorem expanded_year_date_cut:
  "fst (saveEvent rt [] 1 (newEvent (sampleEvent\<lparr>date := Some ''+010000-01-01''\<rparr>))) = Inr () \<and>
   date (fst (snd (saveEvent rt [] 1 (newEvent (sampleEvent\<lparr>date := Some ''+010000-01-01''\<rparr>)))))
     = Some ''+010000-01'' \<and>
   \<not> matchesDatePattern ''+010000-01''"
  by code_simp

end
